theory Spec2Isabelle
  imports Main "HOL-Library.Char_ord" "HOL-Library.List_Lexorder"
begin

section \<open>Python values and string helpers\<close>

text \<open>
  The script handles three kinds of Python values besides \<open>None\<close>: strings (every
  environment value), integers (the access level and its default) and booleans (the default
  of the two skip flags). \<open>None\<close> is the \<open>None\<close> of \<open>pyval option\<close>.
  Strings are byte lists; the helpers below are exact on ASCII text.
\<close>

datatype pyval = PyStr string | PyInt int | PyBool bool

text \<open>Python truthiness, as tested by \<open>not self.value\<close> and by \<open>skip_nested and ...\<close>.\<close>

fun truthy :: "pyval option \<Rightarrow> bool" where
  "truthy None = False"
| "truthy (Some (PyStr s)) = (s \<noteq> [])"
| "truthy (Some (PyInt n)) = (n \<noteq> 0)"
| "truthy (Some (PyBool b)) = b"

text \<open>\<open>str(n)\<close> of an integer: its decimal digits, with a minus sign when negative.\<close>

definition digit_char :: "nat \<Rightarrow> char" where
  "digit_char d = char_of (48 + d)"

fun str_nat :: "nat \<Rightarrow> string" where
  "str_nat n = (if n < 10 then [digit_char n] else str_nat (n div 10) @ [digit_char (n mod 10)])"

declare str_nat.simps [simp del]

definition str_int :: "int \<Rightarrow> string" where
  "str_int i = (if i < 0 then CHR ''-'' # str_nat (nat (- i)) else str_nat (nat i))"

text \<open>\<open>str(v)\<close> as an f-string or \<open>str()\<close> renders a value.\<close>

fun py_str :: "pyval option \<Rightarrow> string" where
  "py_str None = ''None''"
| "py_str (Some (PyStr s)) = s"
| "py_str (Some (PyInt n)) = str_int n"
| "py_str (Some (PyBool b)) = (if b then ''True'' else ''False'')"

text \<open>
  \<open>str.lower()\<close>: the letters \<open>A\<close> to \<open>Z\<close> are mapped to \<open>a\<close> to \<open>z\<close>, every
  other byte is kept. (Python also lowers letters beyond ASCII; none of them becomes a
  letter of the words tested by \<open>boolean\<close>, so membership in that tuple is the same.)
\<close>

definition lower_char :: "char \<Rightarrow> char" where
  "lower_char c =
     (let n = (of_char c :: nat) in if 65 \<le> n \<and> n \<le> 90 then char_of (n + 32) else c)"

definition lower :: "string \<Rightarrow> string" where
  "lower s = map lower_char s"

text \<open>
  \<open>s.split(sep)\<close> for a non-empty separator: the pieces between the occurrences of
  \<open>sep\<close>, scanned from the left, empty pieces kept. The second argument collects the
  current piece in reverse.
\<close>

fun starts_with :: "string \<Rightarrow> string \<Rightarrow> bool" where
  "starts_with [] s = True"
| "starts_with (p # ps) [] = False"
| "starts_with (p # ps) (c # cs) = (p = c \<and> starts_with ps cs)"

fun split_from :: "string \<Rightarrow> string \<Rightarrow> string \<Rightarrow> string list" where
  "split_from sep acc [] = [rev acc]"
| "split_from sep acc (c # cs) =
     (if sep \<noteq> [] \<and> starts_with sep (c # cs)
      then rev acc # split_from sep [] (drop (length sep - 1) cs)
      else split_from sep (c # acc) cs)"

text \<open>
  The exceptions of a run. A \<open>GitlabAuthenticationError\<close> carries its
  \<open>error_message\<close> and its text \<open>str(e)\<close>, a \<open>GitlabGetError\<close> its
  \<open>response_code\<close> and its text, any other exception of the client its text.
\<close>

datatype exn =
    ValueError
  | AttributeError
  | GitlabAuthenticationError string string
  | GitlabGetError int string
  | OtherException string

text \<open>\<open>str.split\<close> raises \<open>ValueError\<close> on an empty separator.\<close>

definition split :: "string \<Rightarrow> string \<Rightarrow> exn + string list" where
  "split s sep = (if sep = [] then Inl ValueError else Inr (split_from sep [] s))"

text \<open>
  \<open>int(v)\<close> of a value that is not \<open>None\<close>. On a string this is Python's builtin
  parser, which is no code of the script: it is the parameter \<open>int_str\<close>, which answers
  the integer or the exception that \<open>int\<close> raises. On an integer and on a boolean \<open>int\<close>
  is the value itself.
\<close>

fun py_int :: "(string \<Rightarrow> exn + int) \<Rightarrow> pyval \<Rightarrow> exn + int" where
  "py_int int_str (PyStr s) = int_str s"
| "py_int int_str (PyInt n) = Inr n"
| "py_int int_str (PyBool b) = Inr (if b then 1 else 0)"

section \<open>The environment helper: class \<open>env\<close>\<close>

text \<open>\<open>os.environ\<close>: the variables that are set, each with its string.\<close>

type_synonym environ = "string \<rightharpoonup> string"

record env =
  key :: string
  alt_key :: "string option"
  default_v :: "pyval option"
  alt_value :: "string option"
  value_v :: "pyval option"

text \<open>
  \<open>env.__init__\<close>. \<open>os.environ.get(k, d)\<close> is the variable's string when \<open>k\<close> is set
  (also when that string is empty) and \<open>d\<close> otherwise.
\<close>

definition environ_get :: "environ \<Rightarrow> string \<Rightarrow> pyval option \<Rightarrow> pyval option" where
  "environ_get environ k d = (case environ k of Some s \<Rightarrow> Some (PyStr s) | None \<Rightarrow> d)"

definition env_init :: "environ \<Rightarrow> string \<Rightarrow> string option \<Rightarrow> pyval option \<Rightarrow> env" where
  "env_init environ k ak d =
     (let av = (case ak of Some a \<Rightarrow> environ a | None \<Rightarrow> None)
      in \<lparr> key = k, alt_key = ak, default_v = d, alt_value = av,
           value_v = environ_get environ k
                       (case av of Some s \<Rightarrow> Some (PyStr s) | None \<Rightarrow> d) \<rparr>)"

text \<open>Log records: the level and the formatted message.\<close>

datatype level = DEBUG | INFO | ERROR | FATAL

text \<open>
  How a run ends early: \<open>sys.exit()\<close> after a log line (\<open>SystemExit\<close>), or an exception
  that no handler catches (\<open>Uncaught\<close>).
\<close>

datatype error = SystemExit | Uncaught exn

text \<open>
  \<open>env.required\<close>: the value when it is not \<open>None\<close>; otherwise the fatal log record
  that is written before \<open>sys.exit()\<close>.
\<close>

definition required :: "env \<Rightarrow> (level \<times> string) + pyval" where
  "required e =
     (case value_v e of
        Some v \<Rightarrow> Inr v
      | None \<Rightarrow> Inl (FATAL, ''Required environment variable \"'' @ key e @ ''\" not set!''))"

text \<open>\<open>env.int\<close>: the default as it is when the value is falsy, else \<open>int(value)\<close>.\<close>

definition int_env :: "(string \<Rightarrow> exn + int) \<Rightarrow> env \<Rightarrow> exn + pyval option" where
  "int_env int_str e =
     (case value_v e of
        None \<Rightarrow> Inr (default_v e)
      | Some v \<Rightarrow>
          if \<not> truthy (Some v) then Inr (default_v e)
          else (case py_int int_str v of Inl x \<Rightarrow> Inl x | Inr n \<Rightarrow> Inr (Some (PyInt n))))"

text \<open>\<open>env.boolean\<close>.\<close>

definition true_words :: "string list" where
  "true_words = [''true'', ''t'', ''yes'', ''y'', ''on'', ''1'']"

definition boolean :: "env \<Rightarrow> pyval option" where
  "boolean e =
     (if \<not> truthy (value_v e) then default_v e
      else Some (PyBool (lower (py_str (value_v e)) \<in> set true_words)))"

text \<open>
  \<open>env.list\<close>: a value that is no string has no \<open>split\<close> method
  (\<open>AttributeError\<close>).
\<close>

definition list_env :: "env \<Rightarrow> string \<Rightarrow> exn + string list" where
  "list_env e separator =
     (if \<not> truthy (value_v e) then Inr []
      else (case value_v e of
              Some (PyStr s) \<Rightarrow> split s separator
            | _ \<Rightarrow> Inl AttributeError))"

section \<open>The remote GitLab instance\<close>

text \<open>
  The python-gitlab client is the script's only view of the server. The record below holds
  what each remote call answers: a result, or the exception the client raises. A group's
  detail record carries \<open>id\<close>, \<open>full_path\<close> and \<open>parent_id\<close>
  (\<open>None\<close> for a top-level group). \<open>members_get g u\<close> answers the access level
  of an existing membership; a missing one is \<open>GitlabGetError 404\<close>.
\<close>

record group =
  gid :: pyval
  full_path :: string
  parent_id :: "pyval option"

record gitlab =
  auth :: "pyval option \<Rightarrow> pyval \<Rightarrow> exn option"
  users_get :: "string \<Rightarrow> exn + string"
  groups_list :: "exn + pyval list"
  groups_get :: "pyval \<Rightarrow> exn + group"
  projects_list :: "pyval \<Rightarrow> exn + nat"
  members_get :: "pyval \<Rightarrow> string \<Rightarrow> exn + int"
  members_create :: "pyval \<Rightarrow> string \<Rightarrow> int \<Rightarrow> exn option"

text \<open>A successful \<open>group.members.create\<close>: from then on the lookup finds the member.\<close>

definition add_member :: "gitlab \<Rightarrow> pyval \<Rightarrow> string \<Rightarrow> int \<Rightarrow> gitlab" where
  "add_member g i u l = g\<lparr> members_get := (members_get g)(i := (members_get g i)(u := Inr l)) \<rparr>"

text \<open>
  Everything a run does is recorded in order: the remote calls it makes and the log
  records it writes. The three counters of \<open>main\<close> are part of the state.
\<close>

datatype call =
    Auth "pyval option" pyval
  | UsersGet string
  | GroupsList
  | GroupsGet pyval
  | ProjectsList pyval
  | MembersGet pyval string
  | MembersCreate pyval string int

datatype event = Log level string | Call call

record state =
  gl :: gitlab
  trace :: "event list"
  success_u :: nat
  success_g :: nat
  total_g :: nat

definition log :: "level \<Rightarrow> string \<Rightarrow> state \<Rightarrow> state" where
  "log l m st = st\<lparr> trace := trace st @ [Log l m] \<rparr>"

definition call :: "call \<Rightarrow> state \<Rightarrow> state" where
  "call c st = st\<lparr> trace := trace st @ [Call c] \<rparr>"

text \<open>The text of an exception of the client, as \<open>{e}\<close> prints it.\<close>

fun exn_str :: "exn \<Rightarrow> string" where
  "exn_str (GitlabAuthenticationError error_message m) = m"
| "exn_str (GitlabGetError c m) = m"
| "exn_str (OtherException m) = m"
| "exn_str ValueError = []"
| "exn_str AttributeError = []"

section \<open>\<open>login_gitlab\<close>\<close>

definition login_gitlab :: "pyval option \<Rightarrow> pyval \<Rightarrow> state \<Rightarrow> (error + unit) \<times> state" where
  "login_gitlab gitlab_url gitlab_token st =
     (let st1 = call (Auth gitlab_url gitlab_token) st in
      case auth (gl st) gitlab_url gitlab_token of
        None \<Rightarrow>
          (Inr (), log INFO (''Success logged in Gitlab \"'' @ py_str gitlab_url @ ''\"'') st1)
      | Some (GitlabAuthenticationError error_message m) \<Rightarrow>
          (Inl SystemExit,
           log FATAL (''Can't login to GitLab \"'' @ py_str gitlab_url @ ''\" '' @ error_message) st1)
      | Some e \<Rightarrow>
          (Inl SystemExit,
           log FATAL (''Can't connect to GitLab \"'' @ py_str gitlab_url @ ''\" '' @ exn_str e) st1))"

section \<open>\<open>main\<close>\<close>

subsection \<open>Connecting\<close>

text \<open>
  \<open>gitlab.const.DEFAULT_URL\<close> belongs to the client library; it is a parameter here.
  Line 134 passes it as the second positional argument of \<open>env\<close>, which is
  \<open>alt_key\<close>.
\<close>

definition gitlab_url :: "string \<Rightarrow> environ \<Rightarrow> pyval option" where
  "gitlab_url DEFAULT_URL environ = value_v (env_init environ ''GITLAB_URL'' (Some DEFAULT_URL) None)"

definition connect :: "string \<Rightarrow> environ \<Rightarrow> state \<Rightarrow> (error + unit) \<times> state" where
  "connect DEFAULT_URL environ st =
     (case required (env_init environ ''GITLAB_PRIVATE_TOKEN'' None None) of
        Inl (l, m) \<Rightarrow> (Inl SystemExit, log l m st)
      | Inr gitlab_token \<Rightarrow> login_gitlab (gitlab_url DEFAULT_URL environ) gitlab_token st)"

subsection \<open>Loading and checking the users\<close>

text \<open>\<open>sorted(set(xs))\<close>: the distinct elements in ascending order.\<close>

definition sorted_set :: "string list \<Rightarrow> string list" where
  "sorted_set xs = sort (remdups xs)"

text \<open>\<open>users.pop(i)\<close> for an index inside the list.\<close>

definition pop :: "nat \<Rightarrow> 'a list \<Rightarrow> 'a list" where
  "pop i xs = take i xs @ drop (Suc i) xs"

text \<open>
  The loop of lines 141 to 151. \<open>enumerate(users)\<close> walks the list object itself: each
  round reads \<open>users[i]\<close> if \<open>i\<close> is still below the current length, and \<open>i\<close> grows by
  one whether or not the round removed an element. An exception other than
  \<open>GitlabGetError\<close> has no handler here.
\<close>

function check_users :: "string list \<Rightarrow> nat \<Rightarrow> state \<Rightarrow> (error + string list) \<times> state" where
  "check_users users i st =
     (if i < length users then
        (let val = users ! i; st1 = call (UsersGet val) st in
         case users_get (gl st) val of
           Inr username \<Rightarrow>
             check_users users (Suc i)
               (log INFO (''User \"'' @ username @ ''\" found and will be used'') st1)
         | Inl (GitlabGetError response_code m) \<Rightarrow>
             if response_code = 404 then
               check_users (pop i users) (Suc i)
                 (log ERROR (''User \"'' @ val @ ''\" ignored, is not exist in GitLab'') st1)
             else
               (Inl SystemExit,
                log FATAL (''Error check user \"'' @ val @ ''\" in GitLab '' @ m) st1)
         | Inl e \<Rightarrow> (Inl (Uncaught e), st1))
      else (Inr users, st))"
  by pat_completeness auto
termination
  by (relation "measure (\<lambda>(users, i, st). length users - i)") (auto simp: pop_def)

declare check_users.simps [simp del]

definition load_users :: "environ \<Rightarrow> state \<Rightarrow> (error + string list) \<times> state" where
  "load_users environ st =
     (case list_env (env_init environ ''GITLAB_FILLING_USERS'' None None) '','' of
        Inl e \<Rightarrow> (Inl (Uncaught e), st)
      | Inr xs \<Rightarrow> check_users (sorted_set xs) 0 st)"

subsection \<open>The other settings and the access level\<close>

text \<open>
  Modelled from the spec: \<open>gitlab.const.DEVELOPER_ACCESS\<close> is a constant of the client
  library; the spec gives Developer the code 30.
\<close>

definition DEVELOPER_ACCESS :: int where
  "DEVELOPER_ACCESS = 30"

definition exclude_groups :: "environ \<Rightarrow> exn + string list" where
  "exclude_groups environ =
     (case list_env (env_init environ ''GITLAB_EXCLUDE_GROUPS'' None None) '','' of
        Inl e \<Rightarrow> Inl e
      | Inr xs \<Rightarrow> Inr (sorted_set xs))"

definition skip_blank :: "environ \<Rightarrow> pyval option" where
  "skip_blank environ = boolean (env_init environ ''SKIP_BLANK_GROUPS'' None (Some (PyBool True)))"

definition skip_nested :: "environ \<Rightarrow> pyval option" where
  "skip_nested environ = boolean (env_init environ ''SKIP_NESTED_GROUPS'' None (Some (PyBool True)))"

definition access_level :: "(string \<Rightarrow> exn + int) \<Rightarrow> environ \<Rightarrow> exn + pyval option" where
  "access_level int_str environ =
     int_env int_str (env_init environ ''GITLAB_USERS_ACCESS_LEVEL'' None (Some (PyInt DEVELOPER_ACCESS)))"

definition levels :: "(int \<times> string) list" where
  "levels = [(0, ''None''), (10, ''Guest''), (20, ''Reporter''), (30, ''Developer''),
             (40, ''Mainteiner''), (50, ''Owner'')]"

text \<open>
  \<open>access_level in levels\<close> and \<open>levels[access_level]\<close>: a dictionary with integer keys
  finds an integer, and a boolean as the integer it equals; \<open>None\<close> and strings are no
  keys of it.
\<close>

fun levels_get :: "pyval option \<Rightarrow> string option" where
  "levels_get (Some (PyInt n)) = map_of levels n"
| "levels_get (Some (PyBool b)) = map_of levels (if b then 1 else 0)"
| "levels_get (Some (PyStr s)) = None"
| "levels_get None = None"

definition check_access_level ::
  "(string \<Rightarrow> exn + int) \<Rightarrow> environ \<Rightarrow> state \<Rightarrow> (error + pyval option) \<times> state" where
  "check_access_level int_str environ st =
     (case access_level int_str environ of
        Inl e \<Rightarrow> (Inl (Uncaught e), st)
      | Inr al \<Rightarrow>
          (case levels_get al of
             None \<Rightarrow>
               (Inl SystemExit, log ERROR (''Unsupporrted access level \"'' @ py_str al @ ''\"'') st)
           | Some name \<Rightarrow>
               (Inr al, log INFO (''For users will be set \"'' @ name @ ''\" access level'') st)))"

subsection \<open>The loop over the groups\<close>

text \<open>
  \<open>group.id in exclude_groups\<close>, where \<open>exclude_groups\<close> is a list of strings: Python
  compares by \<open>==\<close>, and neither an integer nor a boolean equals a string.
\<close>

fun py_in :: "pyval \<Rightarrow> string list \<Rightarrow> bool" where
  "py_in (PyStr s) xs = (s \<in> set xs)"
| "py_in (PyInt n) xs = False"
| "py_in (PyBool b) xs = False"

text \<open>
  Lines 206 to 226, one round of the loop over the users of a group. An exception raised
  by \<open>members.create\<close> leaves from inside the \<open>GitlabGetError\<close> handler, so the
  \<open>except Exception\<close> clause of the same \<open>try\<close> does not see it.
\<close>

definition process_user :: "group \<Rightarrow> string \<Rightarrow> state \<Rightarrow> (error + unit) \<times> state" where
  "process_user grp user st =
     (let st1 = call (MembersGet (gid grp) user) st in
      case members_get (gl st) (gid grp) user of
        Inr m \<Rightarrow> (Inr (), st1)
      | Inl (GitlabGetError response_code m) \<Rightarrow>
          if response_code = 404 then
            (let st2 = call (MembersCreate (gid grp) user DEVELOPER_ACCESS) st1 in
             case members_create (gl st) (gid grp) user DEVELOPER_ACCESS of
               Some e \<Rightarrow> (Inl (Uncaught e), st2)
             | None \<Rightarrow>
                 (Inr (),
                  log INFO (''Added user \"'' @ user @ ''\" to group \"'' @ full_path grp @ ''\"'')
                    (st2\<lparr> gl := add_member (gl st2) (gid grp) user DEVELOPER_ACCESS,
                          success_u := success_u st2 + 1 \<rparr>)))
          else
            (Inr (),
             log ERROR (''Error get user \"'' @ user @ ''\" in \"'' @ full_path grp @ ''\" '' @ m)
               st1)
      | Inl e \<Rightarrow>
          (Inl SystemExit, log FATAL (''Error in \"'' @ full_path grp @ ''\" '' @ exn_str e) st1))"

text \<open>Line 205: the loop stops at the first round that ends the run.\<close>

fun users_loop :: "group \<Rightarrow> string list \<Rightarrow> state \<Rightarrow> (error + unit) \<times> state" where
  "users_loop grp [] st = (Inr (), st)"
| "users_loop grp (user # users) st =
     (case process_user grp user st of
        (Inl e, st') \<Rightarrow> (Inl e, st')
      | (Inr u, st') \<Rightarrow> users_loop grp users st')"

record config =
  c_users :: "string list"
  c_exclude_groups :: "string list"
  c_skip_blank :: "pyval option"
  c_skip_nested :: "pyval option"

text \<open>Lines 201 to 226: a group that passed the three filters.\<close>

definition work_with_group :: "config \<Rightarrow> group \<Rightarrow> state \<Rightarrow> (error + unit) \<times> state" where
  "work_with_group cfg grp st =
     users_loop grp (c_users cfg)
       ((log INFO (''Work with group \"'' @ full_path grp @ ''\"'') st)
          \<lparr> success_g := success_g st + 1 \<rparr>)"

text \<open>
  Lines 183 to 226, one round of the loop over the groups. The projects of the group are
  listed only when \<open>skip_blank\<close> is truthy (\<open>and\<close> evaluates its right side lazily).
\<close>

definition process_group :: "config \<Rightarrow> pyval \<Rightarrow> state \<Rightarrow> (error + unit) \<times> state" where
  "process_group cfg g st =
     (let st1 = call (GroupsGet g) st in
      case groups_get (gl st) g of
        Inl e \<Rightarrow> (Inl (Uncaught e), st1)
      | Inr grp \<Rightarrow>
          (let st2 = st1\<lparr> total_g := total_g st1 + 1 \<rparr> in
           if py_in (gid grp) (c_exclude_groups cfg) then
             (Inr (), log DEBUG (''Group \"'' @ full_path grp @ ''\" skipped by rule'') st2)
           else if truthy (c_skip_nested cfg) \<and> parent_id grp \<noteq> None then
             (Inr (), log DEBUG (''Nested group \"'' @ full_path grp @ ''\" skipped'') st2)
           else if \<not> truthy (c_skip_blank cfg) then work_with_group cfg grp st2
           else
             (let st3 = call (ProjectsList (gid grp)) st2 in
              case projects_list (gl st) (gid grp) of
                Inl e \<Rightarrow> (Inl (Uncaught e), st3)
              | Inr n \<Rightarrow>
                  if n < 1 then
                    (Inr (), log DEBUG (''Blank group \"'' @ full_path grp @ ''\" skipped'') st3)
                  else work_with_group cfg grp st3)))"

fun groups_loop :: "config \<Rightarrow> pyval list \<Rightarrow> state \<Rightarrow> (error + unit) \<times> state" where
  "groups_loop cfg [] st = (Inr (), st)"
| "groups_loop cfg (g # gl_groups) st =
     (case process_group cfg g st of
        (Inl e, st') \<Rightarrow> (Inl e, st')
      | (Inr u, st') \<Rightarrow> groups_loop cfg gl_groups st')"

subsection \<open>The whole run\<close>

text \<open>
  Lines 177 to 230: the list of groups is fetched once, the loop runs, the summary is
  logged. (The last log line, the elapsed wall-clock time, is left out.)
\<close>

definition fill_groups :: "config \<Rightarrow> state \<Rightarrow> (error + unit) \<times> state" where
  "fill_groups cfg st =
     (let st1 = call GroupsList st in
      case groups_list (gl st) of
        Inl e \<Rightarrow> (Inl (Uncaught e), st1)
      | Inr gl_groups \<Rightarrow>
          (case groups_loop cfg gl_groups
                  (st1\<lparr> success_u := 0, success_g := 0, total_g := 0 \<rparr>) of
             (Inl e, st') \<Rightarrow> (Inl e, st')
           | (Inr u, st') \<Rightarrow>
               (Inr (),
                log INFO (''Updated '' @ str_nat (success_u st') @ '' users in ''
                          @ str_nat (success_g st') @ '' matching groups out of ''
                          @ str_nat (total_g st') @ '' found groups'') st')))"

text \<open>Lines 154 to 156, which read the environment only.\<close>

definition load_config :: "environ \<Rightarrow> string list \<Rightarrow> exn + config" where
  "load_config environ us =
     (case exclude_groups environ of
        Inl e \<Rightarrow> Inl e
      | Inr ex \<Rightarrow>
          Inr \<lparr> c_users = us, c_exclude_groups = ex, c_skip_blank = skip_blank environ,
                c_skip_nested = skip_nested environ \<rparr>)"

text \<open>A run starts with an empty record of events on a given server.\<close>

definition start :: "gitlab \<Rightarrow> state" where
  "start g = \<lparr> gl = g, trace = [], success_u = 0, success_g = 0, total_g = 0 \<rparr>"

text \<open>Lines 134 to 151: connecting, then loading and checking the users.\<close>

definition startup :: "string \<Rightarrow> environ \<Rightarrow> state \<Rightarrow> (error + string list) \<times> state" where
  "startup DEFAULT_URL environ st =
     (case connect DEFAULT_URL environ st of
        (Inl e, st1) \<Rightarrow> (Inl e, st1)
      | (Inr u, st1) \<Rightarrow> load_users environ st1)"

definition main ::
  "(string \<Rightarrow> exn + int) \<Rightarrow> string \<Rightarrow> environ \<Rightarrow> gitlab \<Rightarrow> (error + unit) \<times> state" where
  "main int_str DEFAULT_URL environ g =
     (case startup DEFAULT_URL environ (start g) of
        (Inl e, st2) \<Rightarrow> (Inl e, st2)
      | (Inr us, st2) \<Rightarrow>
          (case load_config environ us of
             Inl e \<Rightarrow> (Inl (Uncaught e), st2)
           | Inr cfg \<Rightarrow>
               (case check_access_level int_str environ st2 of
                  (Inl e, st3) \<Rightarrow> (Inl e, st3)
                | (Inr al, st3) \<Rightarrow> fill_groups cfg st3)))"

section \<open>The resolution order in the words of the specification\<close>

text \<open>
  The primary key's environment value, else the alternate key's environment value (if an
  alternate key is given), else the default.
\<close>

definition resolve_spec :: "environ \<Rightarrow> string \<Rightarrow> string option \<Rightarrow> pyval option \<Rightarrow> pyval option" where
  "resolve_spec environ k ak d =
     (case environ k of
        Some p \<Rightarrow> Some (PyStr p)
      | None \<Rightarrow>
          (case ak of
             None \<Rightarrow> d
           | Some a \<Rightarrow> (case environ a of Some q \<Rightarrow> Some (PyStr q) | None \<Rightarrow> d)))"


section \<open>Observations on a run\<close>

text \<open>The remote calls that belong to the work on the groups.\<close>

fun group_call :: "event \<Rightarrow> bool" where
  "group_call (Call GroupsList) = True"
| "group_call (Call (GroupsGet g)) = True"
| "group_call (Call (ProjectsList g)) = True"
| "group_call (Call (MembersGet g u)) = True"
| "group_call (Call (MembersCreate g u l)) = True"
| "group_call (Call (Auth u t)) = False"
| "group_call (Call (UsersGet u)) = False"
| "group_call (Log l m) = False"

text \<open>The only mutating call of the script.\<close>

fun is_create :: "event \<Rightarrow> bool" where
  "is_create (Call (MembersCreate g u l)) = True"
| "is_create (Call (Auth u t)) = False"
| "is_create (Call (UsersGet u)) = False"
| "is_create (Call GroupsList) = False"
| "is_create (Call (GroupsGet g)) = False"
| "is_create (Call (ProjectsList g)) = False"
| "is_create (Call (MembersGet g u)) = False"
| "is_create (Log l m) = False"

text \<open>
  Two servers that differ at most in their memberships, and a server that has every
  membership of another one (and answers every lookup that did not end in 404 the same).
\<close>

definition same_server :: "gitlab \<Rightarrow> gitlab \<Rightarrow> bool" where
  "same_server a b =
     (auth a = auth b \<and> users_get a = users_get b \<and> groups_list a = groups_list b \<and>
      groups_get a = groups_get b \<and> projects_list a = projects_list b \<and>
      members_create a = members_create b)"

fun not_found :: "exn + int \<Rightarrow> bool" where
  "not_found (Inl (GitlabGetError c m)) = (c = 404)"
| "not_found (Inl ValueError) = False"
| "not_found (Inl AttributeError) = False"
| "not_found (Inl (GitlabAuthenticationError em m)) = False"
| "not_found (Inl (OtherException m)) = False"
| "not_found (Inr l) = False"

definition extends :: "gitlab \<Rightarrow> gitlab \<Rightarrow> bool" where
  "extends a b =
     (same_server a b \<and>
      (\<forall>g u. \<not> not_found (members_get a g u) \<longrightarrow> members_get b g u = members_get a g u))"

text \<open>
  A membership lookup after which the loop goes on without a change: the member is found,
  or the lookup fails with a code other than 404.
\<close>

fun benign :: "exn + int \<Rightarrow> bool" where
  "benign (Inl (GitlabGetError c m)) = (c \<noteq> 404)"
| "benign (Inl ValueError) = False"
| "benign (Inl AttributeError) = False"
| "benign (Inl (GitlabAuthenticationError em m)) = False"
| "benign (Inl (OtherException m)) = False"
| "benign (Inr l) = True"

text \<open>A stretch of a run that leaves the server as it is and adds no member.\<close>

definition quiet :: "state \<Rightarrow> state \<Rightarrow> bool" where
  "quiet st st' =
     (gl st' = gl st \<and> success_u st' = success_u st \<and>
      filter is_create (trace st') = filter is_create (trace st))"

text \<open>
  The membership of \<open>u\<close> in \<open>g\<close> exists with level \<open>m\<close>, and no call has asked to
  create it.
\<close>

definition kept :: "pyval \<Rightarrow> string \<Rightarrow> int \<Rightarrow> state \<Rightarrow> bool" where
  "kept g u m st =
     (members_get (gl st) g u = Inr m \<and> (\<forall>l. Call (MembersCreate g u l) \<notin> set (trace st)))"

text \<open>A stretch of a run that leaves the server as it is and makes no call about groups.\<close>

definition calm :: "state \<Rightarrow> state \<Rightarrow> bool" where
  "calm st st' =
     (gl st' = gl st \<and> filter group_call (trace st') = filter group_call (trace st))"

section \<open>Example servers and environments\<close>

text \<open>
  A server with one top-level group, id 5, holding three projects. Every user exists, nobody
  is a member yet, and every call succeeds.
\<close>

definition server :: gitlab where
  "server =
     \<lparr> auth = (\<lambda>u t. None),
       users_get = (\<lambda>u. Inr u),
       groups_list = Inr [PyInt 5],
       groups_get = (\<lambda>g. Inr \<lparr> gid = g, full_path = ''org/team'', parent_id = None \<rparr>),
       projects_list = (\<lambda>g. Inr 3),
       members_get = (\<lambda>g u. Inl (GitlabGetError 404 ''404 Not found'')),
       members_create = (\<lambda>g u l. None) \<rparr>"

text \<open>The same server, where no user exists.\<close>

definition server_without_users :: gitlab where
  "server_without_users =
     server\<lparr> users_get := (\<lambda>u. Inl (GitlabGetError 404 ''404 User Not Found'')) \<rparr>"

definition environ_token :: environ where
  "environ_token = [''GITLAB_PRIVATE_TOKEN'' \<mapsto> ''secret'']"

definition environ_alice :: environ where
  "environ_alice = environ_token(''GITLAB_FILLING_USERS'' \<mapsto> ''alice'')"

text \<open>
  An instance of the parameter \<open>int_str\<close> for the examples, which call \<open>int\<close> on
  the strings \<open>"25"\<close> and \<open>"40"\<close> only: there it answers as Python does. Its answer
  on any other string is never used.
\<close>

definition int_str_example :: "string \<Rightarrow> exn + int" where
  "int_str_example s =
     (if s = ''25'' then Inr 25 else if s = ''40'' then Inr 40 else Inl ValueError)"

definition environ_two_users :: environ where
  "environ_two_users = environ_token(''GITLAB_FILLING_USERS'' \<mapsto> ''a,b'')"

definition environ_maintainer :: environ where
  "environ_maintainer = environ_alice(''GITLAB_USERS_ACCESS_LEVEL'' \<mapsto> ''40'')"

definition environ_level_25 :: environ where
  "environ_level_25 = environ_alice(''GITLAB_USERS_ACCESS_LEVEL'' \<mapsto> ''25'')"

definition environ_exclude_5 :: environ where
  "environ_exclude_5 = environ_alice(''GITLAB_EXCLUDE_GROUPS'' \<mapsto> ''5'')"

text \<open>The first server, where alice already is a Maintainer (40) of group 5.\<close>

definition server_with_member :: gitlab where
  "server_with_member =
     server\<lparr> members_get :=
       (\<lambda>g u. if g = PyInt 5 \<and> u = ''alice'' then Inr 40
              else Inl (GitlabGetError 404 ''404 Not found'')) \<rparr>"

text \<open>An environment with a variable that is named like the default URL.\<close>

definition environ_url_variable :: environ where
  "environ_url_variable = environ_alice(''https://gitlab.com'' \<mapsto> ''http://other.example'')"

definition environ_alice_bob :: environ where
  "environ_alice_bob = environ_token(''GITLAB_FILLING_USERS'' \<mapsto> ''bob,alice'')"

section \<open>Basic facts about runs\<close>

lemma call_simps [simp]:
  "gl (call c st) = gl st" "trace (call c st) = trace st @ [Call c]"
  "success_u (call c st) = success_u st" "success_g (call c st) = success_g st"
  "total_g (call c st) = total_g st"
  by (simp_all add: call_def)

lemma log_simps [simp]:
  "gl (log l m st) = gl st" "trace (log l m st) = trace st @ [Log l m]"
  "success_u (log l m st) = success_u st" "success_g (log l m st) = success_g st"
  "total_g (log l m st) = total_g st"
  by (simp_all add: log_def)

lemma benign_not_found: "benign r \<Longrightarrow> \<not> not_found r"
  by (cases r rule: benign.cases) auto

lemma extends_refl: "extends a a"
  by (simp add: extends_def same_server_def)

lemma extends_trans: "extends a b \<Longrightarrow> extends b c \<Longrightarrow> extends a c"
  by (simp add: extends_def same_server_def)

lemma extends_add_member:
  "not_found (members_get a g u) \<Longrightarrow> extends a (add_member a g u l)"
  by (auto simp add: extends_def same_server_def add_member_def)

lemma extends_same: "extends a b \<Longrightarrow> same_server a b"
  by (simp add: extends_def)

lemma extends_benign:
  assumes "extends a b" and "benign (members_get a g u)"
  shows "benign (members_get b g u)"
proof -
  from assms(2) have "\<not> not_found (members_get a g u)" by (rule benign_not_found)
  with assms(1) have "members_get b g u = members_get a g u" by (simp add: extends_def)
  with assms(2) show ?thesis by simp
qed

lemma extends_found:
  "extends a b \<Longrightarrow> members_get a g u = Inr m \<Longrightarrow> members_get b g u = Inr m"
  by (simp add: extends_def)

lemma quiet_refl: "quiet st st"
  by (simp add: quiet_def)

lemma quiet_trans: "quiet a b \<Longrightarrow> quiet b c \<Longrightarrow> quiet a c"
  by (simp add: quiet_def)

subsection \<open>One user\<close>

lemma process_user_extends:
  "process_user grp u st = (r, st') \<Longrightarrow> extends (gl st) (gl st')"
  by (auto simp add: process_user_def Let_def extends_refl extends_add_member
      split: sum.splits exn.splits if_splits option.splits)

lemma process_user_settles:
  "process_user grp u st = (Inr x, st') \<Longrightarrow> benign (members_get (gl st') (gid grp) u)"
  by (auto simp add: process_user_def Let_def add_member_def
      split: sum.splits exn.splits if_splits option.splits)

lemma process_user_benign:
  "benign (members_get (gl st) (gid grp) u) \<Longrightarrow>
     \<exists>st'. process_user grp u st = (Inr (), st') \<and> quiet st st' \<and>
           success_g st' = success_g st \<and> total_g st' = total_g st"
  by (auto simp add: process_user_def Let_def quiet_def
      split: sum.splits exn.splits if_splits option.splits)

lemma process_user_kept:
  "process_user grp u st = (r, st') \<Longrightarrow> kept g v m st \<Longrightarrow> kept g v m st'"
  by (auto simp add: process_user_def Let_def kept_def add_member_def
      split: sum.splits exn.splits if_splits option.splits)

subsection \<open>The users of one group\<close>

lemma users_loop_extends:
  "users_loop grp us st = (r, st') \<Longrightarrow> extends (gl st) (gl st')"
proof (induction us arbitrary: st)
  case Nil
  then show ?case by (simp add: extends_refl)
next
  case (Cons u us)
  obtain r1 st1 where p: "process_user grp u st = (r1, st1)" by (cases "process_user grp u st")
  then have e1: "extends (gl st) (gl st1)" by (rule process_user_extends)
  show ?case
  proof (cases r1)
    case (Inl e)
    with Cons.prems p e1 show ?thesis by simp
  next
    case (Inr x)
    with Cons.prems p have "users_loop grp us st1 = (r, st')" by simp
    then have "extends (gl st1) (gl st')" by (rule Cons.IH)
    with e1 show ?thesis by (rule extends_trans)
  qed
qed

lemma users_loop_settles:
  "users_loop grp us st = (Inr x, st') \<Longrightarrow> \<forall>u \<in> set us. benign (members_get (gl st') (gid grp) u)"
proof (induction us arbitrary: st)
  case Nil
  then show ?case by simp
next
  case (Cons u us)
  obtain r1 st1 where p: "process_user grp u st = (r1, st1)" by (cases "process_user grp u st")
  show ?case
  proof (cases r1)
    case (Inl e)
    with Cons.prems p show ?thesis by simp
  next
    case (Inr y)
    with Cons.prems p have rest: "users_loop grp us st1 = (Inr x, st')" by simp
    from p Inr have "benign (members_get (gl st1) (gid grp) u)"
      by (simp add: process_user_settles)
    with users_loop_extends [OF rest] have "benign (members_get (gl st') (gid grp) u)"
      by (rule extends_benign)
    with Cons.IH [OF rest] show ?thesis by simp
  qed
qed

lemma users_loop_benign:
  "\<forall>u \<in> set us. benign (members_get (gl st) (gid grp) u) \<Longrightarrow>
     \<exists>st'. users_loop grp us st = (Inr (), st') \<and> quiet st st' \<and>
           success_g st' = success_g st \<and> total_g st' = total_g st"
proof (induction us arbitrary: st)
  case Nil
  then show ?case by (simp add: quiet_refl)
next
  case (Cons u us)
  from Cons.prems have "benign (members_get (gl st) (gid grp) u)" by simp
  from process_user_benign [OF this]
  obtain st1 where p: "process_user grp u st = (Inr (), st1)" and q: "quiet st st1"
    and c: "success_g st1 = success_g st" "total_g st1 = total_g st" by blast
  from q have "gl st1 = gl st" by (simp add: quiet_def)
  with Cons.prems have "\<forall>u \<in> set us. benign (members_get (gl st1) (gid grp) u)" by simp
  from Cons.IH [OF this]
  obtain st' where "users_loop grp us st1 = (Inr (), st')" and "quiet st1 st'"
    and "success_g st' = success_g st1" "total_g st' = total_g st1" by blast
  with p q c show ?case by (auto intro: quiet_trans)
qed

lemma users_loop_kept:
  "users_loop grp us st = (r, st') \<Longrightarrow> kept g v m st \<Longrightarrow> kept g v m st'"
proof (induction us arbitrary: st)
  case Nil
  then show ?case by simp
next
  case (Cons u us)
  obtain r1 st1 where p: "process_user grp u st = (r1, st1)" by (cases "process_user grp u st")
  with Cons.prems(2) have k: "kept g v m st1" by (simp add: process_user_kept)
  show ?case
  proof (cases r1)
    case (Inl e)
    with Cons.prems p k show ?thesis by simp
  next
    case (Inr x)
    with Cons.prems p have "users_loop grp us st1 = (r, st')" by simp
    from Cons.IH [OF this k] show ?thesis .
  qed
qed


subsection \<open>One group\<close>

lemma work_with_group_extends:
  "work_with_group cfg grp st = (r, st') \<Longrightarrow> extends (gl st) (gl st')"
  by (auto simp add: work_with_group_def dest: users_loop_extends)

lemma work_with_group_settles:
  "work_with_group cfg grp st = (Inr x, st') \<Longrightarrow>
     \<forall>u \<in> set (c_users cfg). benign (members_get (gl st') (gid grp) u)"
  unfolding work_with_group_def by (rule users_loop_settles)

lemma work_with_group_benign:
  assumes "\<forall>u \<in> set (c_users cfg). benign (members_get (gl st) (gid grp) u)"
  shows "\<exists>st'. work_with_group cfg grp st = (Inr (), st') \<and> quiet st st'"
proof -
  let ?st = "(log INFO (''Work with group \"'' @ full_path grp @ ''\"'') st)
               \<lparr> success_g := success_g st + 1 \<rparr>"
  from assms have "\<forall>u \<in> set (c_users cfg). benign (members_get (gl ?st) (gid grp) u)" by simp
  from users_loop_benign [OF this]
  obtain st' where "users_loop grp (c_users cfg) ?st = (Inr (), st')" and "quiet ?st st'" by blast
  moreover have "quiet st ?st" by (simp add: quiet_def)
  ultimately show ?thesis by (auto simp add: work_with_group_def intro: quiet_trans)
qed

lemma work_with_group_kept:
  "work_with_group cfg grp st = (r, st') \<Longrightarrow> kept g v m st \<Longrightarrow> kept g v m st'"
  unfolding work_with_group_def
  by (erule users_loop_kept) (simp add: kept_def)

lemma process_group_extends:
  "process_group cfg g st = (r, st') \<Longrightarrow> extends (gl st) (gl st')"
  by (auto simp add: process_group_def Let_def extends_refl
      split: sum.splits if_splits dest: work_with_group_extends)

lemma kept_simps [simp]:
  "kept h v m (log l t s) = kept h v m s"
  "kept h v m (call (GroupsGet g) s) = kept h v m s"
  "kept h v m (call (ProjectsList g) s) = kept h v m s"
  "kept h v m (call GroupsList s) = kept h v m s"
  "kept h v m (call (UsersGet u) s) = kept h v m s"
  "kept h v m (call (Auth a b) s) = kept h v m s"
  "kept h v m (s\<lparr> total_g := n \<rparr>) = kept h v m s"
  "kept h v m (s\<lparr> success_g := n \<rparr>) = kept h v m s"
  "kept h v m (s\<lparr> success_u := n \<rparr>) = kept h v m s"
  by (simp_all add: kept_def)

lemma quiet_simps [simp]:
  "quiet a (log l t s) = quiet a s"
  "quiet a (call (GroupsGet g) s) = quiet a s"
  "quiet a (call (ProjectsList g) s) = quiet a s"
  "quiet a (call GroupsList s) = quiet a s"
  "quiet a (call (MembersGet g u) s) = quiet a s"
  "quiet a (call (UsersGet u) s) = quiet a s"
  "quiet a (call (Auth x y) s) = quiet a s"
  "quiet a (s\<lparr> total_g := n \<rparr>) = quiet a s"
  "quiet a (s\<lparr> success_g := n \<rparr>) = quiet a s"
  by (simp_all add: quiet_def)

lemma process_group_kept:
  assumes p: "process_group cfg g st = (r, st')" and k: "kept h v m st"
  shows "kept h v m st'"
  using p k
  by (auto simp add: process_group_def Let_def
      split: sum.splits if_splits
      dest: work_with_group_kept [where g = h and v = v and m = m])

lemma process_group_replay:
  assumes p: "process_group cfg g st = (Inr x, st')"
    and e: "extends (gl st') W" and w: "gl st2 = W"
  shows "\<exists>st2'. process_group cfg g st2 = (Inr (), st2') \<and> quiet st2 st2'"
proof -
  from p have "extends (gl st) (gl st')" by (rule process_group_extends)
  from extends_trans [OF this e]
  have ss: "same_server (gl st) (gl st2)" using w by (simp add: extends_def)
  from p obtain grp where gg: "groups_get (gl st) g = Inr grp"
    by (auto simp add: process_group_def Let_def split: sum.splits)
  with ss have gg2: "groups_get (gl st2) g = Inr grp" by (simp add: same_server_def)
  from ss have pl: "projects_list (gl st2) (gid grp) = projects_list (gl st) (gid grp)"
    by (simp add: same_server_def)
  have work: "\<exists>st2'. work_with_group cfg grp s = (Inr (), st2') \<and> quiet st2 st2'"
    if run: "work_with_group cfg grp s1 = (Inr x, st')" and s: "quiet st2 s" for s s1
  proof -
    from run have "\<forall>u \<in> set (c_users cfg). benign (members_get (gl st') (gid grp) u)"
      by (rule work_with_group_settles)
    with e have "\<forall>u \<in> set (c_users cfg). benign (members_get W (gid grp) u)"
      by (auto intro: extends_benign)
    with s w have "\<forall>u \<in> set (c_users cfg). benign (members_get (gl s) (gid grp) u)"
      by (simp add: quiet_def)
    from work_with_group_benign [OF this] s show ?thesis by (auto intro: quiet_trans)
  qed
  from p gg show ?thesis
    by (auto simp add: process_group_def Let_def gg2 pl quiet_refl
        split: sum.splits if_splits intro!: work)
qed


subsection \<open>All groups\<close>

lemma groups_loop_extends:
  "groups_loop cfg gs st = (r, st') \<Longrightarrow> extends (gl st) (gl st')"
proof (induction gs arbitrary: st)
  case Nil
  then show ?case by (simp add: extends_refl)
next
  case (Cons g gs)
  obtain r1 st1 where p: "process_group cfg g st = (r1, st1)" by (cases "process_group cfg g st")
  then have e1: "extends (gl st) (gl st1)" by (rule process_group_extends)
  show ?case
  proof (cases r1)
    case (Inl e)
    with Cons.prems p e1 show ?thesis by simp
  next
    case (Inr x)
    with Cons.prems p have "groups_loop cfg gs st1 = (r, st')" by simp
    then have "extends (gl st1) (gl st')" by (rule Cons.IH)
    with e1 show ?thesis by (rule extends_trans)
  qed
qed

lemma groups_loop_kept:
  "groups_loop cfg gs st = (r, st') \<Longrightarrow> kept h v m st \<Longrightarrow> kept h v m st'"
proof (induction gs arbitrary: st)
  case Nil
  then show ?case by simp
next
  case (Cons g gs)
  obtain r1 st1 where p: "process_group cfg g st = (r1, st1)" by (cases "process_group cfg g st")
  with Cons.prems(2) have k: "kept h v m st1" by (simp add: process_group_kept)
  show ?case
  proof (cases r1)
    case (Inl e)
    with Cons.prems p k show ?thesis by simp
  next
    case (Inr x)
    with Cons.prems p have "groups_loop cfg gs st1 = (r, st')" by simp
    from Cons.IH [OF this k] show ?thesis .
  qed
qed

lemma groups_loop_replay:
  "groups_loop cfg gs st = (Inr x, st') \<Longrightarrow> extends (gl st') W \<Longrightarrow> gl st2 = W \<Longrightarrow>
     \<exists>st2'. groups_loop cfg gs st2 = (Inr (), st2') \<and> quiet st2 st2'"
proof (induction gs arbitrary: st st2)
  case Nil
  then show ?case by (simp add: quiet_refl)
next
  case (Cons g gs)
  obtain r1 st1 where p: "process_group cfg g st = (r1, st1)" by (cases "process_group cfg g st")
  show ?case
  proof (cases r1)
    case (Inl e)
    with Cons.prems p show ?thesis by simp
  next
    case (Inr y)
    with Cons.prems p have rest: "groups_loop cfg gs st1 = (Inr x, st')" by simp
    from extends_trans [OF groups_loop_extends [OF rest] Cons.prems(2)]
    have e1: "extends (gl st1) W" .
    from p Inr have "process_group cfg g st = (Inr y, st1)" by simp
    from process_group_replay [OF this e1 Cons.prems(3)]
    obtain s2 where p2: "process_group cfg g st2 = (Inr (), s2)" and q: "quiet st2 s2" by blast
    from q Cons.prems(3) have "gl s2 = W" by (simp add: quiet_def)
    from Cons.IH [OF rest Cons.prems(2) this]
    obtain s2' where "groups_loop cfg gs s2 = (Inr (), s2')" and "quiet s2 s2'" by blast
    with p2 q show ?thesis by (auto intro: quiet_trans)
  qed
qed

subsection \<open>The stages before the loop\<close>

lemma fill_groups_kept:
  "fill_groups cfg st = (r, st') \<Longrightarrow> kept h v m st \<Longrightarrow> kept h v m st'"
  by (auto simp add: fill_groups_def Let_def split: sum.splits prod.splits
      dest: groups_loop_kept [where h = h and v = v and m = m])

lemma fill_groups_extends:
  "fill_groups cfg st = (r, st') \<Longrightarrow> extends (gl st) (gl st')"
  by (auto simp add: fill_groups_def Let_def extends_refl split: sum.splits prod.splits
      dest: groups_loop_extends)

lemma fill_groups_replay:
  assumes f: "fill_groups cfg st = (Inr x, st')" and w: "gl st2 = gl st'"
  shows "\<exists>st2'. fill_groups cfg st2 = (Inr (), st2') \<and> gl st2' = gl st' \<and> success_u st2' = 0 \<and>
     filter is_create (trace st2') = filter is_create (trace st2)"
proof -
  from f have "extends (gl st) (gl st')" by (rule fill_groups_extends)
  with w have gs: "groups_list (gl st2) = groups_list (gl st)"
    by (simp add: extends_def same_server_def)
  from f obtain gs sl where l: "groups_list (gl st) = Inr gs"
    and run: "groups_loop cfg gs ((call GroupsList st)\<lparr> success_u := 0, success_g := 0, total_g := 0 \<rparr>)
                = (Inr (), sl)"
    and fin: "gl st' = gl sl"
    by (auto simp add: fill_groups_def Let_def split: sum.splits prod.splits)
  let ?s2 = "(call GroupsList st2)\<lparr> success_u := 0, success_g := 0, total_g := 0 \<rparr>"
  have "extends (gl sl) (gl st')" using fin by (simp add: extends_refl)
  moreover have "gl ?s2 = gl st'" using w by simp
  ultimately obtain s2' where run2: "groups_loop cfg gs ?s2 = (Inr (), s2')" and q: "quiet ?s2 s2'"
    using groups_loop_replay [OF run] by blast
  from q w have "gl s2' = gl st'" "success_u s2' = 0"
    "filter is_create (trace s2') = filter is_create (trace st2)"
    by (simp_all add: quiet_def)
  with run2 gs l show ?thesis by (simp add: fill_groups_def Let_def)
qed


lemma calm_refl: "calm st st"
  by (simp add: calm_def)

lemma calm_trans: "calm a b \<Longrightarrow> calm b c \<Longrightarrow> calm a c"
  by (simp add: calm_def)

lemma calm_simps [simp]:
  "calm a (log l t s) = calm a s"
  "calm a (call (UsersGet u) s) = calm a s"
  "calm a (call (Auth x y) s) = calm a s"
  "calm (log l t s) b = calm s b"
  "calm (call (UsersGet u) s) b = calm s b"
  "calm (call (Auth x y) s) b = calm s b"
  by (auto simp add: calm_def)

lemma is_create_group_call: "is_create ev \<Longrightarrow> group_call ev"
  by (cases ev rule: is_create.cases) simp_all

lemma filter_is_create: "filter is_create (filter group_call xs) = filter is_create xs"
  by (induction xs) (auto dest: is_create_group_call)

lemma calm_creates: "calm st st' \<Longrightarrow> filter is_create (trace st') = filter is_create (trace st)"
  by (metis calm_def filter_is_create)

lemma calm_kept:
  assumes "calm st st'" and "kept h v m st"
  shows "kept h v m st'"
proof -
  have "Call (MembersCreate h v l) \<notin> set (trace st')" for l
  proof
    assume "Call (MembersCreate h v l) \<in> set (trace st')"
    then have "Call (MembersCreate h v l) \<in> set (filter group_call (trace st'))" by simp
    with assms(1) have "Call (MembersCreate h v l) \<in> set (filter group_call (trace st))"
      by (simp add: calm_def)
    with assms(2) show False by (simp add: kept_def)
  qed
  with assms show ?thesis by (simp add: kept_def calm_def)
qed

lemma check_users_calm:
  "check_users us i st = (r, st') \<Longrightarrow> calm st st'"
proof (induction us i st rule: check_users.induct)
  case (1 users i st)
  from "1.prems" "1.IH" show ?case
    by (subst (asm) check_users.simps)
       (auto simp add: Let_def calm_refl split: if_splits sum.splits exn.splits)
qed

lemma login_gitlab_calm: "login_gitlab u t st = (r, st') \<Longrightarrow> calm st st'"
  by (auto simp add: login_gitlab_def Let_def calm_refl split: option.splits exn.splits)

lemma connect_calm: "connect D environ st = (r, st') \<Longrightarrow> calm st st'"
  by (auto simp add: connect_def calm_refl split: sum.splits prod.splits dest: login_gitlab_calm)

lemma load_users_calm: "load_users environ st = (r, st') \<Longrightarrow> calm st st'"
  by (auto simp add: load_users_def calm_refl split: sum.splits dest: check_users_calm)

lemma startup_calm: "startup D environ st = (r, st') \<Longrightarrow> calm st st'"
  by (auto simp add: startup_def split: sum.splits prod.splits
      dest: connect_calm load_users_calm intro: calm_trans)

lemma check_access_level_calm: "check_access_level int_str environ st = (r, st') \<Longrightarrow> calm st st'"
  by (auto simp add: check_access_level_def calm_refl split: sum.splits option.splits)


lemma call_gl_update: "call c (st\<lparr> gl := w \<rparr>) = (call c st)\<lparr> gl := w \<rparr>"
  by (simp add: call_def)

lemma log_gl_update: "log l t (st\<lparr> gl := w \<rparr>) = (log l t st)\<lparr> gl := w \<rparr>"
  by (simp add: log_def)

lemma check_users_transfer:
  "users_get w = users_get (gl st) \<Longrightarrow> check_users us i st = (r, st') \<Longrightarrow>
     check_users us i (st\<lparr> gl := w \<rparr>) = (r, st'\<lparr> gl := w \<rparr>)"
proof (induction us i st rule: check_users.induct)
  case (1 users i st)
  from "1.prems" "1.IH" show ?case
    by (subst check_users.simps, subst (asm) check_users.simps)
       (auto simp add: Let_def call_gl_update log_gl_update
          split: if_splits sum.splits exn.splits)
qed

lemma login_gitlab_transfer:
  "auth w = auth (gl st) \<Longrightarrow> login_gitlab u t st = (r, st') \<Longrightarrow>
     login_gitlab u t (st\<lparr> gl := w \<rparr>) = (r, st'\<lparr> gl := w \<rparr>)"
  by (auto simp add: login_gitlab_def Let_def call_gl_update log_gl_update
      split: option.splits exn.splits)

lemma connect_transfer:
  "auth w = auth (gl st) \<Longrightarrow> connect D environ st = (r, st') \<Longrightarrow>
     connect D environ (st\<lparr> gl := w \<rparr>) = (r, st'\<lparr> gl := w \<rparr>)"
  by (auto simp add: connect_def log_gl_update split: sum.splits prod.splits
      dest: login_gitlab_transfer)

lemma load_users_transfer:
  "users_get w = users_get (gl st) \<Longrightarrow> load_users environ st = (r, st') \<Longrightarrow>
     load_users environ (st\<lparr> gl := w \<rparr>) = (r, st'\<lparr> gl := w \<rparr>)"
  by (auto simp add: load_users_def split: sum.splits dest: check_users_transfer)

lemma startup_transfer:
  assumes "same_server (gl st) w" and s: "startup D environ st = (r, st')"
  shows "startup D environ (st\<lparr> gl := w \<rparr>) = (r, st'\<lparr> gl := w \<rparr>)"
proof -
  from assms(1) have a: "auth w = auth (gl st)" and u: "users_get w = users_get (gl st)"
    by (simp_all add: same_server_def)
  obtain r1 s1 where c: "connect D environ st = (r1, s1)" by (cases "connect D environ st")
  from connect_transfer [OF a c]
  have c2: "connect D environ (st\<lparr> gl := w \<rparr>) = (r1, s1\<lparr> gl := w \<rparr>)" .
  show ?thesis
  proof (cases r1)
    case (Inl e)
    with s c c2 show ?thesis by (simp add: startup_def)
  next
    case (Inr x)
    with s c have l: "load_users environ s1 = (r, st')" by (simp add: startup_def)
    from connect_calm [OF c] u have "users_get w = users_get (gl s1)" by (simp add: calm_def)
    from load_users_transfer [OF this l] c2 Inr show ?thesis by (simp add: startup_def)
  qed
qed

lemma check_access_level_transfer:
  "check_access_level int_str environ st = (r, st') \<Longrightarrow>
     check_access_level int_str environ (st\<lparr> gl := w \<rparr>) = (r, st'\<lparr> gl := w \<rparr>)"
  by (auto simp add: check_access_level_def log_gl_update split: sum.splits option.splits)

lemma start_gl_update: "(start g)\<lparr> gl := w \<rparr> = start w"
  by (simp add: start_def)

lemma main_kept:
  assumes m: "main int_str D environ g = (r, st)" and f: "members_get g h v = Inr l"
  shows "kept h v l st"
proof -
  have k0: "kept h v l (start g)" using f by (simp add: kept_def start_def)
  obtain r2 s2 where s: "startup D environ (start g) = (r2, s2)"
    by (cases "startup D environ (start g)")
  from calm_kept [OF startup_calm [OF s] k0] have k2: "kept h v l s2" .
  show ?thesis
  proof (cases r2)
    case (Inl e)
    with m s k2 show ?thesis by (simp add: main_def)
  next
    case (Inr us)
    show ?thesis
    proof (cases "load_config environ us")
      case (Inl e)
      with m s Inr k2 show ?thesis by (simp add: main_def)
    next
      case cfg: (Inr cfg)
      obtain r3 s3 where c: "check_access_level int_str environ s2 = (r3, s3)"
        by (cases "check_access_level int_str environ s2")
      from calm_kept [OF check_access_level_calm [OF c] k2] have k3: "kept h v l s3" .
      show ?thesis
      proof (cases r3)
        case (Inl e)
        with m s Inr cfg c k3 show ?thesis by (simp add: main_def)
      next
        case al: (Inr al)
        with m s Inr cfg c have "fill_groups cfg s3 = (r, st)" by (simp add: main_def)
        from fill_groups_kept [OF this k3] show ?thesis .
      qed
    qed
  qed
qed

lemma main_replay:
  assumes m: "main int_str D environ g = (Inr x, st)"
  shows "\<exists>st2. main int_str D environ (gl st) = (Inr (), st2) \<and> gl st2 = gl st \<and> success_u st2 = 0 \<and>
           filter is_create (trace st2) = []"
proof -
  from m obtain us s2 cfg al s3 where
    s: "startup D environ (start g) = (Inr us, s2)" and
    cfg: "load_config environ us = Inr cfg" and
    c: "check_access_level int_str environ s2 = (Inr al, s3)" and
    f: "fill_groups cfg s3 = (Inr x, st)"
    by (auto simp add: main_def split: sum.splits prod.splits)
  from startup_calm [OF s] have c2: "calm (start g) s2" .
  from check_access_level_calm [OF c] have c3: "calm s2 s3" .
  from calm_trans [OF c2 c3] have c03: "calm (start g) s3" .
  then have g3: "gl s3 = g" by (simp add: calm_def start_def)
  from fill_groups_extends [OF f] g3 have "same_server (gl (start g)) (gl st)"
    by (simp add: extends_def start_def)
  from startup_transfer [OF this s]
  have s': "startup D environ (start (gl st)) = (Inr us, s2\<lparr> gl := gl st \<rparr>)"
    by (simp add: start_gl_update)
  from check_access_level_transfer [OF c]
  have c': "check_access_level int_str environ (s2\<lparr> gl := gl st \<rparr>) = (Inr al, s3\<lparr> gl := gl st \<rparr>)" .
  have "gl (s3\<lparr> gl := gl st \<rparr>) = gl st" by simp
  from fill_groups_replay [OF f this]
  obtain st2 where f2: "fill_groups cfg (s3\<lparr> gl := gl st \<rparr>) = (Inr (), st2)"
    and r: "gl st2 = gl st" "success_u st2 = 0"
      "filter is_create (trace st2) = filter is_create (trace (s3\<lparr> gl := gl st \<rparr>))"
    by blast
  from calm_creates [OF c03] have "filter is_create (trace s3) = []" by (simp add: start_def)
  with r have "filter is_create (trace st2) = []" by simp
  with s' cfg c' f2 r show ?thesis by (simp add: main_def)
qed


section \<open>Evaluating a run on an example\<close>

lemmas run_defs = main_def startup_def connect_def required_def login_gitlab_def gitlab_url_def
  load_users_def list_env_def load_config_def exclude_groups_def skip_blank_def skip_nested_def
  check_access_level_def access_level_def int_env_def boolean_def fill_groups_def
  process_group_def process_user_def work_with_group_def env_init_def environ_get_def split_def
  sorted_set_def start_def call_def log_def add_member_def pop_def check_users.simps levels_def
  int_str_example_def DEVELOPER_ACCESS_def true_words_def Let_def

lemmas example_defs = environ_token_def environ_alice_def environ_two_users_def
  environ_maintainer_def environ_level_25_def environ_exclude_5_def environ_alice_bob_def
  environ_url_variable_def
  server_def server_without_users_def server_with_member_def

lemmas digit_defs = str_nat.simps digit_char_def char_of_def bit_Suc_0_iff

lemma lower_True [simp]: "lower ''True'' = ''true''"
  by code_simp



lemma str_int_25 [simp]: "str_int 25 = ''25''"
  by code_simp

section \<open>The environment helper\<close>

lemma value_v_env_init:
  "value_v (env_init environ k ak d) =
     (case environ k of
        Some p \<Rightarrow> Some (PyStr p)
      | None \<Rightarrow>
          (case ak of
             None \<Rightarrow> d
           | Some a \<Rightarrow> (case environ a of Some q \<Rightarrow> Some (PyStr q) | None \<Rightarrow> d)))"
  by (simp add: env_init_def environ_get_def split: option.splits)

lemma default_v_env_init [simp]: "default_v (env_init environ k ak d) = d"
  by (simp add: env_init_def Let_def)

lemma key_env_init [simp]: "key (env_init environ k ak d) = k"
  by (simp add: env_init_def Let_def)


text \<open>
  Claim C8: the resolved value is the primary key's environment value if that key is set,
  else the alternate key's environment value if an alternate key is given and set, else the
  default; when the primary key is set its value is returned, whatever the alternate key
  holds.
\<close>

theorem resolution_precedence:
  "value_v (env_init environ k ak d) = resolve_spec environ k ak d \<and>
   (\<forall>p. environ k = Some p \<longrightarrow> value_v (env_init environ k ak d) = Some (PyStr p))"
  by (simp add: value_v_env_init resolve_spec_def)

theorem resolution_precedence_witness:
  "value_v (env_init [''A'' \<mapsto> ''1'', ''B'' \<mapsto> ''2''] ''A'' (Some ''B'') (Some (PyStr ''3'')))
     = Some (PyStr ''1'') \<and>
   value_v (env_init [''B'' \<mapsto> ''2''] ''A'' (Some ''B'') (Some (PyStr ''3''))) = Some (PyStr ''2'') \<and>
   value_v (env_init Map.empty ''A'' (Some ''B'') (Some (PyStr ''3''))) = Some (PyStr ''3'')"
  using resolution_precedence [of "[''A'' \<mapsto> ''1'', ''B'' \<mapsto> ''2'']" "''A''" "Some ''B''"
      "Some (PyStr ''3'')"]
    resolution_precedence [of "[''B'' \<mapsto> ''2'']" "''A''" "Some ''B''" "Some (PyStr ''3'')"]
    resolution_precedence [of "Map.empty" "''A''" "Some ''B''" "Some (PyStr ''3'')"]
  by (simp add: resolve_spec_def)


















section \<open>The access level check\<close>

lemma exclude_groups_total: "\<exists>xs. exclude_groups environ = Inr xs"
  by (simp add: exclude_groups_def list_env_def value_v_env_init split_def
      split: option.splits)

lemma load_config_total: "\<exists>cfg. load_config environ us = Inr cfg"
  using exclude_groups_total [of environ] by (auto simp add: load_config_def)

lemma levels_get_int: "levels_get (Some (PyInt n)) = None \<longleftrightarrow> n \<notin> {0, 10, 20, 30, 40, 50}"
  by (simp add: levels_def)

text \<open>
  Claim C7: when the resolved access level is an integer outside \<open>{0, 10, 20, 30, 40, 50}\<close>
  (whatever \<open>int\<close> answers on the configured string), the run ends early: the server
  is left as it was and no call about groups (listing, detail, projects, membership lookup
  or creation) has been made. When connecting and the check of the users succeed, the run
  ends by \<open>sys.exit()\<close> right after the error log record that names the level.
\<close>

theorem unsupported_access_level_exits:
  assumes al: "access_level int_str environ = Inr (Some (PyInt n))"
    and bad: "n \<notin> {0, 10, 20, 30, 40, 50}"
  shows "(\<exists>e. fst (main int_str D environ g) = Inl e) \<and>
         gl (snd (main int_str D environ g)) = g \<and>
         filter group_call (trace (snd (main int_str D environ g))) = [] \<and>
         (\<forall>us st. startup D environ (start g) = (Inr us, st) \<longrightarrow>
            main int_str D environ g =
              (Inl SystemExit,
               log ERROR (''Unsupporrted access level \"'' @ str_int n @ ''\"'') st))"
proof -
  from bad levels_get_int [of n] have "levels_get (Some (PyInt n)) = None" by blast
  then have lv: "map_of levels n = None" by simp
  have chk: "check_access_level int_str environ st =
      (Inl SystemExit, log ERROR (''Unsupporrted access level \"'' @ str_int n @ ''\"'') st)" for st
    by (simp add: check_access_level_def al lv)
  obtain r2 s2 where s: "startup D environ (start g) = (r2, s2)"
    by (cases "startup D environ (start g)")
  from startup_calm [OF s] have c: "gl s2 = g" "filter group_call (trace s2) = []"
    by (simp_all add: calm_def start_def)
  show ?thesis
  proof (cases r2)
    case (Inl e)
    with s c show ?thesis by (simp add: main_def)
  next
    case (Inr us)
    obtain cfg where "load_config environ us = Inr cfg" using load_config_total by blast
    with s Inr c chk show ?thesis by (simp add: main_def)
  qed
qed

lemma access_level_25: "access_level int_str_example environ_level_25 = Inr (Some (PyInt 25))"
  by (simp add: run_defs example_defs)

lemma startup_level_25:
  "startup ''https://gitlab.com'' environ_level_25 (start server) =
     (Inr [''alice''],
      (start server)\<lparr> trace :=
        [Call (Auth None (PyStr ''secret'')),
         Log INFO ''Success logged in Gitlab \"None\"'',
         Call (UsersGet ''alice''),
         Log INFO ''User \"alice\" found and will be used''] \<rparr>)"
  by (simp add: run_defs example_defs)

theorem unsupported_access_level_exits_witness:
  "access_level int_str_example environ_level_25 = Inr (Some (PyInt 25)) \<and>
   main int_str_example ''https://gitlab.com'' environ_level_25 server =
     (Inl SystemExit,
      (start server)\<lparr> trace :=
        [Call (Auth None (PyStr ''secret'')),
         Log INFO ''Success logged in Gitlab \"None\"'',
         Call (UsersGet ''alice''),
         Log INFO ''User \"alice\" found and will be used'',
         Log ERROR ''Unsupporrted access level \"25\"''] \<rparr>)"
  using unsupported_access_level_exits [OF access_level_25, of "''https://gitlab.com''" server]
    startup_level_25 access_level_25
  by (simp add: log_def)


section \<open>What the two inner steps do in general\<close>

text \<open>
  A membership lookup that ends in 404, followed by a successful create: the member is
  counted, and the membership has the level \<open>DEVELOPER_ACCESS\<close> whatever level was
  configured.
\<close>

lemma process_user_not_found:
  assumes "members_get (gl st) (gid grp) u = Inl (GitlabGetError 404 m)"
    and "members_create (gl st) (gid grp) u DEVELOPER_ACCESS = None"
  shows "\<exists>st'. process_user grp u st = (Inr (), st') \<and>
           members_get (gl st') (gid grp) u = Inr DEVELOPER_ACCESS \<and>
           success_u st' = success_u st + 1"
  using assms by (simp add: process_user_def add_member_def)

text \<open>When every user of the list is found, the check keeps the list as it is.\<close>

lemma check_users_all_found:
  "\<forall>u \<in> set us. \<exists>n. users_get (gl st) u = Inr n \<Longrightarrow> fst (check_users us i st) = Inr us"
proof (induction us i st rule: check_users.induct)
  case (1 users i st)
  show ?case
  proof (cases "i < length users")
    case False
    then show ?thesis by (subst check_users.simps) simp
  next
    case True
    then have "users ! i \<in> set users" by simp
    with "1.prems" obtain n where n: "users_get (gl st) (users ! i) = Inr n" by blast
    let ?st = "log INFO (''User \"'' @ n @ ''\" found and will be used'')
                 (call (UsersGet (users ! i)) st)"
    from "1.prems" have "\<forall>u \<in> set users. \<exists>n. users_get (gl ?st) u = Inr n" by simp
    with "1.IH"(2) [OF True refl refl n] have "fst (check_users users (Suc i) ?st) = Inr users" .
    with True n show ?thesis by (subst check_users.simps) simp
  qed
qed

section \<open>Runs on the examples\<close>

lemma load_users_two_not_found:
  "load_users environ_two_users (start server_without_users) =
     (Inr [''b''],
      (start server_without_users)\<lparr> trace :=
        [Call (UsersGet ''a''), Log ERROR ''User \"a\" ignored, is not exist in GitLab''] \<rparr>)"
  by (simp add: run_defs example_defs)

text \<open>
  Claim C3 at a failing input: the users \<open>a\<close> and \<open>b\<close> are both unknown to the
  server (404). The check removes \<open>a\<close>, never looks \<open>b\<close> up and keeps it, where
  the claim has the empty list.
\<close>

theorem adjacent_missing_user_survives:
  "users_get server_without_users ''a'' = Inl (GitlabGetError 404 ''404 User Not Found'') \<and>
   users_get server_without_users ''b'' = Inl (GitlabGetError 404 ''404 User Not Found'') \<and>
   fst (load_users environ_two_users (start server_without_users)) = Inr [''b''] \<and>
   Call (UsersGet ''b'') \<notin> set (trace (snd (load_users environ_two_users (start server_without_users))))"
  by (simp add: load_users_two_not_found) (simp add: example_defs)

lemma main_maintainer:
  "main int_str_example ''https://gitlab.com'' environ_maintainer server =
     (Inr (),
      \<lparr> gl = add_member server (PyInt 5) ''alice'' 30,
        trace =
          [Call (Auth None (PyStr ''secret'')),
           Log INFO ''Success logged in Gitlab \"None\"'',
           Call (UsersGet ''alice''),
           Log INFO ''User \"alice\" found and will be used'',
           Log INFO ''For users will be set \"Mainteiner\" access level'',
           Call GroupsList,
           Call (GroupsGet (PyInt 5)),
           Call (ProjectsList (PyInt 5)),
           Log INFO ''Work with group \"org/team\"'',
           Call (MembersGet (PyInt 5) ''alice''),
           Call (MembersCreate (PyInt 5) ''alice'' 30),
           Log INFO ''Added user \"alice\" to group \"org/team\"'',
           Log INFO ''Updated 1 users in 1 matching groups out of 1 found groups''],
        success_u = 1, success_g = 1, total_g = 1 \<rparr>)"
  by (simp add: run_defs example_defs digit_defs)


text \<open>
  Claim C1 at a failing input: the access level is configured as 40 and passes the check,
  alice is no member of group 5. The run creates her membership and counts it, but with
  level 30 (\<open>DEVELOPER_ACCESS\<close>), not with the configured 40.
\<close>

theorem create_uses_developer_level:
  "access_level int_str_example environ_maintainer = Inr (Some (PyInt 40)) \<and>
   members_get server (PyInt 5) ''alice'' = Inl (GitlabGetError 404 ''404 Not found'') \<and>
   fst (main int_str_example ''https://gitlab.com'' environ_maintainer server) = Inr () \<and>
   members_get (gl (snd (main int_str_example ''https://gitlab.com'' environ_maintainer server))) (PyInt 5) ''alice''
     = Inr 30 \<and>
   filter is_create (trace (snd (main int_str_example ''https://gitlab.com'' environ_maintainer server)))
     = [Call (MembersCreate (PyInt 5) ''alice'' 30)] \<and>
   success_u (snd (main int_str_example ''https://gitlab.com'' environ_maintainer server)) = 1"
  by (simp add: main_maintainer) (simp add: run_defs example_defs)

text \<open>
  What the exclusion rule does when the test \<open>group.id in exclude_groups\<close> holds: the
  round ends after the detail fetch with a debug log record, no other filter is evaluated,
  and only the counter of groups seen grows.
\<close>

lemma process_group_excluded:
  assumes "groups_get (gl st) g = Inr grp" and "py_in (gid grp) (c_exclude_groups cfg)"
  shows "process_group cfg g st =
           (Inr (),
            log DEBUG (''Group \"'' @ full_path grp @ ''\" skipped by rule'')
              ((call (GroupsGet g) st)\<lparr> total_g := total_g st + 1 \<rparr>))"
  using assms by (simp add: process_group_def)

lemma main_exclude_5:
  "main int_str ''https://gitlab.com'' environ_exclude_5 server =
     (Inr (),
      \<lparr> gl = add_member server (PyInt 5) ''alice'' 30,
        trace =
          [Call (Auth None (PyStr ''secret'')),
           Log INFO ''Success logged in Gitlab \"None\"'',
           Call (UsersGet ''alice''),
           Log INFO ''User \"alice\" found and will be used'',
           Log INFO ''For users will be set \"Developer\" access level'',
           Call GroupsList,
           Call (GroupsGet (PyInt 5)),
           Call (ProjectsList (PyInt 5)),
           Log INFO ''Work with group \"org/team\"'',
           Call (MembersGet (PyInt 5) ''alice''),
           Call (MembersCreate (PyInt 5) ''alice'' 30),
           Log INFO ''Added user \"alice\" to group \"org/team\"'',
           Log INFO ''Updated 1 users in 1 matching groups out of 1 found groups''],
        success_u = 1, success_g = 1, total_g = 1 \<rparr>)"
  by (simp add: run_defs example_defs digit_defs)

text \<open>
  Claim C2 at a failing input: \<open>GITLAB_EXCLUDE_GROUPS\<close> is \<open>5\<close> and the server has the
  group with the integer id 5. The test \<open>group.id in exclude_groups\<close> compares the integer
  with the string \<open>"5"\<close>, so the group is not skipped: its membership is looked up,
  alice is added and the group is counted as matching.
\<close>

theorem excluded_integer_id_is_processed:
  "exclude_groups environ_exclude_5 = Inr [''5''] \<and>
   groups_list server = Inr [PyInt 5] \<and>
   \<not> py_in (PyInt 5) [''5''] \<and>
   Call (MembersGet (PyInt 5) ''alice'')
     \<in> set (trace (snd (main int_str ''https://gitlab.com'' environ_exclude_5 server))) \<and>
   Call (MembersCreate (PyInt 5) ''alice'' 30)
     \<in> set (trace (snd (main int_str ''https://gitlab.com'' environ_exclude_5 server))) \<and>
   success_g (snd (main int_str ''https://gitlab.com'' environ_exclude_5 server)) = 1"
  by (simp add: main_exclude_5) (simp add: run_defs example_defs)

lemma main_url_variable:
  "main int_str ''https://gitlab.com'' environ_url_variable server =
     (Inr (),
      \<lparr> gl = add_member server (PyInt 5) ''alice'' 30,
        trace =
          [Call (Auth (Some (PyStr ''http://other.example'')) (PyStr ''secret'')),
           Log INFO ''Success logged in Gitlab \"http://other.example\"'',
           Call (UsersGet ''alice''),
           Log INFO ''User \"alice\" found and will be used'',
           Log INFO ''For users will be set \"Developer\" access level'',
           Call GroupsList,
           Call (GroupsGet (PyInt 5)),
           Call (ProjectsList (PyInt 5)),
           Log INFO ''Work with group \"org/team\"'',
           Call (MembersGet (PyInt 5) ''alice''),
           Call (MembersCreate (PyInt 5) ''alice'' 30),
           Log INFO ''Added user \"alice\" to group \"org/team\"'',
           Log INFO ''Updated 1 users in 1 matching groups out of 1 found groups''],
        success_u = 1, success_g = 1, total_g = 1 \<rparr>)"
  by (simp add: run_defs example_defs digit_defs)

text \<open>
  Claim C4 at a failing input: \<open>GITLAB_URL\<close> is unset and the environment holds a variable
  whose name is the default URL. Line 134 passes the default URL as the second positional
  argument, the alternate key, so the value of that variable is the resolved URL and the
  login call goes there, where the claim has the default URL. The default URL is never a
  value of the setting: without such a variable the script hands \<open>None\<close> to the client.
\<close>

theorem unset_url_reads_other_variable:
  "environ_url_variable ''GITLAB_URL'' = None \<and>
   gitlab_url ''https://gitlab.com'' environ_url_variable = Some (PyStr ''http://other.example'') \<and>
   hd (trace (snd (main int_str ''https://gitlab.com'' environ_url_variable server)))
     = Call (Auth (Some (PyStr ''http://other.example'')) (PyStr ''secret'')) \<and>
   gitlab_url ''https://gitlab.com'' environ_alice = None"
  by (simp add: main_url_variable) (simp add: gitlab_url_def value_v_env_init example_defs)

text \<open>
  Claim C6: a membership that exists when the run starts still exists with the same access
  level when the run ends (however it ends), and no call to create it was made. When a run
  completes, a second run with the same environment on the server as the first run left it
  completes as well, changes nothing and adds no member: its counter of added users is 0
  and it makes no create call.
\<close>

theorem existing_membership_untouched:
  assumes "main int_str D environ g = (r, st)"
  shows "(\<forall>h v l. members_get g h v = Inr l \<longrightarrow>
            members_get (gl st) h v = Inr l \<and>
            (\<forall>l'. Call (MembersCreate h v l') \<notin> set (trace st))) \<and>
         (r = Inr () \<longrightarrow>
            (\<exists>st2. main int_str D environ (gl st) = (Inr (), st2) \<and> gl st2 = gl st \<and>
                   success_u st2 = 0 \<and> filter is_create (trace st2) = []))"
proof -
  have a: "members_get (gl st) h v = Inr l \<and> (\<forall>l'. Call (MembersCreate h v l') \<notin> set (trace st))"
    if "members_get g h v = Inr l" for h v l
    using main_kept [OF assms that] by (simp add: kept_def)
  have b: "\<exists>st2. main int_str D environ (gl st) = (Inr (), st2) \<and> gl st2 = gl st \<and>
                   success_u st2 = 0 \<and> filter is_create (trace st2) = []"
    if "r = Inr ()"
    using main_replay [of int_str D environ g "()" st] assms that by simp
  from a b show ?thesis by blast
qed

lemma main_alice_bob:
  "main int_str_example ''https://gitlab.com'' environ_alice_bob server_with_member =
     (Inr (),
      \<lparr> gl = add_member server_with_member (PyInt 5) ''bob'' 30,
        trace =
          [Call (Auth None (PyStr ''secret'')),
           Log INFO ''Success logged in Gitlab \"None\"'',
           Call (UsersGet ''alice''),
           Log INFO ''User \"alice\" found and will be used'',
           Call (UsersGet ''bob''),
           Log INFO ''User \"bob\" found and will be used'',
           Log INFO ''For users will be set \"Developer\" access level'',
           Call GroupsList,
           Call (GroupsGet (PyInt 5)),
           Call (ProjectsList (PyInt 5)),
           Log INFO ''Work with group \"org/team\"'',
           Call (MembersGet (PyInt 5) ''alice''),
           Call (MembersGet (PyInt 5) ''bob''),
           Call (MembersCreate (PyInt 5) ''bob'' 30),
           Log INFO ''Added user \"bob\" to group \"org/team\"'',
           Log INFO ''Updated 1 users in 1 matching groups out of 1 found groups''],
        success_u = 1, success_g = 1, total_g = 1 \<rparr>)"
  by (simp add: run_defs example_defs digit_defs)

theorem existing_membership_untouched_witness:
  "members_get server_with_member (PyInt 5) ''alice'' = Inr 40 \<and>
   fst (main int_str_example ''https://gitlab.com'' environ_alice_bob server_with_member) = Inr () \<and>
   members_get (gl (snd (main int_str_example ''https://gitlab.com'' environ_alice_bob server_with_member)))
     (PyInt 5) ''alice'' = Inr 40 \<and>
   success_u (snd (main int_str_example ''https://gitlab.com'' environ_alice_bob server_with_member)) = 1 \<and>
   (\<exists>st2. main int_str_example ''https://gitlab.com'' environ_alice_bob
            (gl (snd (main int_str_example ''https://gitlab.com'' environ_alice_bob server_with_member)))
            = (Inr (), st2) \<and>
          success_u st2 = 0 \<and> filter is_create (trace st2) = [])"
proof -
  have m: "members_get server_with_member (PyInt 5) ''alice'' = Inr 40"
    by (simp add: server_with_member_def)
  from existing_membership_untouched [OF main_alice_bob] m
  show ?thesis by (simp add: main_alice_bob) blast
qed

end
